theory Spec2Isabelle
  imports Complex_Main "HOL-Library.Log_Nat" "HOL-Library.Sublist"
begin

section \<open>Meta Pixel Calculator: the text analysis of \<open>src/index.js\<close>\<close>

text \<open>
  The service measures a meta title or description with a canvas, in the font of a
  display profile, and reports whether Google would truncate it. This theory embeds
  \<open>analyzeText\<close> and the batch endpoint from the point where it has found its items.

  Conventions of the embedding:
  \<^item> A finite JavaScript number is the rational it denotes; \<open>Infinity\<close>, \<open>-Infinity\<close>
    and \<open>NaN\<close> are added where a division can produce them (type \<open>jsnum\<close>). The
    operator \<open>/\<close> rounds its quotient to binary64, to nearest with ties to even, as
    IEEE 754 does. The sign of zero is not modelled. Comparisons and \<open>Math.round\<close>
    are exact in JavaScript as they are here; so is the one subtraction,
    \<open>maxPixels - 5\<close>, for the whole-number budgets of every copy of the table.
    The widths a canvas returns and the numbers of the table are binary64 numbers; the
    theorems hold for every rational in their place.
  \<^item> A JavaScript string is a list of character units; \<open>text.length\<close> is \<open>length\<close>
    and \<open>text.slice(0, n)\<close> is \<open>take n\<close>.
  \<^item> The \<open>canvas\<close> package is not part of the repository. What its
    \<open>measureText(text).width\<close> returns for a string, in a context whose font is
    \<open>`${fontSize}px ${fontFamily}`\<close>, is a parameter \<open>cv fontSize fontFamily text\<close>.
  \<^item> The repository holds several copies of \<open>index.js\<close> that differ only in the
    numbers of \<open>META_SETTINGS\<close>; the table is therefore a parameter of
    \<open>analyzeText\<close>, and the table of the first copy is the constant \<open>META_SETTINGS\<close>.
\<close>

subsection \<open>JavaScript numbers\<close>

datatype jsnum = Num rat | PosInf | NegInf | NaN

text \<open>
  Rounding to binary64. \<open>binary_exponent x\<close> is the exponent of the power of two at or
  below a positive \<open>x\<close>. A normal number has 53 significant bits, so the last one is
  worth \<open>2 powi (e - 52)\<close>; below \<open>2 powi (- 1022)\<close> the numbers are subnormal and the
  last bit stays at \<open>2 powi (- 1074)\<close>. The quotient of \<open>x\<close> by that unit is rounded to
  the nearest integer, a tie to the even one; a result of \<open>2 powi 1024\<close> or more is an
  infinity.
\<close>

definition round_half_even :: "rat \<Rightarrow> int" where
  "round_half_even x =
     (let f = \<lfloor>x\<rfloor>; d = x - of_int f
      in if d < 1 / 2 then f else if 1 / 2 < d then f + 1 else if even f then f else f + 1)"

definition binary_exponent :: "rat \<Rightarrow> int" where
  "binary_exponent x =
     (if 1 \<le> x then bitlen \<lfloor>x\<rfloor> - 1 else - bitlen (\<lceil>1 / x\<rceil> - 1))"

definition ulp_exponent :: "rat \<Rightarrow> int" where
  "ulp_exponent x = max (binary_exponent \<bar>x\<bar>) (- 1022) - 52"

definition significand :: "rat \<Rightarrow> int" where
  "significand x = round_half_even (\<bar>x\<bar> / 2 powi ulp_exponent x)"

definition binary64 :: "rat \<Rightarrow> jsnum" where
  "binary64 x =
     (if x = 0 then Num 0
      else if 972 \<le> ulp_exponent x \<or> (ulp_exponent x = 971 \<and> 2 ^ 53 \<le> significand x)
      then (if 0 < x then PosInf else NegInf)
      else Num (if 0 < x then of_int (significand x) * 2 powi ulp_exponent x
                else - (of_int (significand x) * 2 powi ulp_exponent x)))"

text \<open>
  The \<open>/\<close> operator. A zero divisor is \<open>+0\<close> wherever this program divides (a string
  length, or a width divided by a positive length), so \<open>x / 0\<close> has the sign of \<open>x\<close>.
\<close>

fun js_div :: "jsnum \<Rightarrow> jsnum \<Rightarrow> jsnum" where
  "js_div NaN y = NaN"
| "js_div x NaN = NaN"
| "js_div (Num a) (Num b) =
     (if b = 0 then (if a = 0 then NaN else if 0 < a then PosInf else NegInf)
      else binary64 (a / b))"
| "js_div (Num a) PosInf = Num 0"
| "js_div (Num a) NegInf = Num 0"
| "js_div PosInf (Num b) = (if 0 \<le> b then PosInf else NegInf)"
| "js_div NegInf (Num b) = (if 0 \<le> b then NegInf else PosInf)"
| "js_div PosInf PosInf = NaN"
| "js_div PosInf NegInf = NaN"
| "js_div NegInf PosInf = NaN"
| "js_div NegInf NegInf = NaN"

text \<open>\<open>Math.floor\<close>.\<close>

fun js_floor :: "jsnum \<Rightarrow> jsnum" where
  "js_floor (Num a) = Num (of_int \<lfloor>a\<rfloor>)"
| "js_floor x = x"

text \<open>\<open>a < b\<close> where \<open>b\<close> may be \<open>undefined\<close>: the comparison with \<open>undefined\<close> is false.\<close>

fun js_less_undef :: "rat \<Rightarrow> rat option \<Rightarrow> bool" where
  "js_less_undef a None = False"
| "js_less_undef a (Some b) = (a < b)"

subsection \<open>Display profiles\<close>

datatype meta_type = Title | Description

record settings =
  fontFamily :: string
  fontSize :: rat
  maxPixels :: rat
  minPixels :: "rat option"
  visualFontSize :: "rat option"

definition META_SETTINGS :: "meta_type \<Rightarrow> settings" where
  "META_SETTINGS type =
     (case type of
        Title \<Rightarrow> \<lparr>fontFamily = ''Arial'', fontSize = 20, maxPixels = 600,
                  minPixels = None, visualFontSize = Some 20\<rparr>
      | Description \<Rightarrow> \<lparr>fontFamily = ''Arial'', fontSize = 14, maxPixels = 920,
                  minPixels = Some 430, visualFontSize = None\<rparr>)"

subsection \<open>Measuring\<close>

type_synonym canvas = "rat \<Rightarrow> string \<Rightarrow> string \<Rightarrow> rat"

record context2d =
  ctx_fontSize :: rat
  ctx_fontFamily :: string

definition createContext :: "rat \<Rightarrow> string \<Rightarrow> context2d" where
  "createContext fontSize' fontFamily' =
     \<lparr>ctx_fontSize = fontSize', ctx_fontFamily = fontFamily'\<rparr>"

definition measureText :: "canvas \<Rightarrow> context2d \<Rightarrow> string \<Rightarrow> rat" where
  "measureText cv ctx text = cv (ctx_fontSize ctx) (ctx_fontFamily ctx) text"

definition measureTextWidth :: "canvas \<Rightarrow> string \<Rightarrow> rat \<Rightarrow> string \<Rightarrow> rat" where
  "measureTextWidth cv text fontSize' fontFamily' =
     measureText cv (createContext fontSize' fontFamily') text"

subsection \<open>The analysis\<close>

record analysis =
  pixelWidth :: int
  characterCount :: nat
  isTruncated :: bool
  truncatedText :: string
  isOptimal :: bool
  recommendedMaxChars :: jsnum
  res_maxPixels :: rat
  res_minPixels :: "rat option option"
  res_isTooShort :: "bool option"

text \<open>
  The \<open>while\<close> loop of \<open>analyzeText\<close>, started at \<open>i\<close>: it measures the prefix of
  length \<open>i + 1\<close> and stops at the first one wider than \<open>limit\<close>, or at the end of the text.
\<close>

function truncation_scan :: "canvas \<Rightarrow> context2d \<Rightarrow> string \<Rightarrow> rat \<Rightarrow> nat \<Rightarrow> nat" where
  "truncation_scan cv ctx text limit i =
     (if i < length text
      then (if measureText cv ctx (take (i + 1) text) > limit then i
            else truncation_scan cv ctx text limit (i + 1))
      else i)"
  by pat_completeness auto
termination
  by (relation "measure (\<lambda>(cv, ctx, text, limit, i). length text - i)") auto

declare truncation_scan.simps [simp del]

text \<open>
  In the result, \<open>res_minPixels\<close> and \<open>res_isTooShort\<close> are \<open>None\<close> when the key is not
  in the returned object (the spread of \<open>false\<close> for a title).
\<close>

definition analyzeText :: "canvas \<Rightarrow> (meta_type \<Rightarrow> settings) \<Rightarrow> string \<Rightarrow> meta_type \<Rightarrow> analysis" where
  "analyzeText cv META text type =
     (let settings = META type;
          pixelWidth' = measureTextWidth cv text (fontSize settings) (fontFamily settings);
          isTruncated' = (pixelWidth' > maxPixels settings);
          truncatedText' =
            (if isTruncated'
             then (let ctx = createContext (fontSize settings) (fontFamily settings);
                       i = truncation_scan cv ctx text (maxPixels settings - 5) 0
                   in take i text @ ''...'')
             else text);
          avgCharWidth = js_div (Num pixelWidth') (Num (of_nat (length text)));
          recommendedChars = js_floor (js_div (Num (maxPixels settings)) avgCharWidth);
          isTooShort = (type = Description \<and> js_less_undef pixelWidth' (minPixels settings))
      in \<lparr>pixelWidth = round pixelWidth',
          characterCount = length text,
          isTruncated = isTruncated',
          truncatedText = (if isTruncated' then truncatedText' else text),
          isOptimal = (\<not> isTruncated' \<and> (type \<noteq> Description \<or> \<not> isTooShort)),
          recommendedMaxChars = recommendedChars,
          res_maxPixels = maxPixels settings,
          res_minPixels = (if type = Description then Some (minPixels settings) else None),
          res_isTooShort = (if type = Description then Some isTooShort else None)\<rparr>)"

text \<open>
  A canvas for examples: every character unit is \<open>k\<close> em wide, whatever the family.
\<close>

definition em_canvas :: "rat \<Rightarrow> canvas" where
  "em_canvas k fontSize' fontFamily' text = k * fontSize' * of_nat (length text)"

text \<open>
  The width the loop measures for the prefix of length \<open>n\<close>, in the font of a profile.
\<close>

definition prefix_width :: "canvas \<Rightarrow> settings \<Rightarrow> string \<Rightarrow> nat \<Rightarrow> rat" where
  "prefix_width cv settings text n =
     measureText cv (createContext (fontSize settings) (fontFamily settings)) (take n text)"

text \<open>
  A second canvas for examples: it measures like \<open>em_canvas (1/2)\<close> in Arial and
  gives every text the width 0 in any other family.
\<close>

definition arial_only_canvas :: canvas where
  "arial_only_canvas fontSize' fontFamily' text =
     (if fontFamily' = ''Arial'' then em_canvas (1/2) fontSize' fontFamily' text else 0)"

text \<open>
  A table for examples whose title budget is 4 pixels, less than the 5 pixels kept for
  the marker.
\<close>

definition narrow_settings :: "meta_type \<Rightarrow> settings" where
  "narrow_settings type = (META_SETTINGS type)\<lparr>maxPixels := 4\<rparr>"

text \<open>
  The marker as the specification prints it, the single character U+2026, by its
  UTF-8 bytes. The code appends three full stops.
\<close>

definition spec_ellipsis_marker :: string where
  "spec_ellipsis_marker = [CHR 0xE2, CHR 0x80, CHR 0xA6]"

subsection \<open>The batch endpoint\<close>

text \<open>
  The values of a parsed JSON body. An object is the list of its members, each key once.
\<close>

datatype json =
    JNull
  | JBool bool
  | JNum rat
  | JStr string
  | JArr "json list"
  | JObj "(string \<times> json) list"

text \<open>
  \<open>item.key\<close> for the keys the handler reads (\<open>id\<close>, \<open>title\<close>, \<open>description\<close>);
  \<open>None\<close> is \<open>undefined\<close>, which is what an array or a scalar gives for them.
\<close>

fun property :: "json \<Rightarrow> string \<Rightarrow> json option" where
  "property (JObj members) key = map_of members key"
| "property v key = None"

text \<open>
  The truth value of a JavaScript value in a condition, and \<open>typeof v === 'object'\<close>.
\<close>

fun truthy :: "json option \<Rightarrow> bool" where
  "truthy None = False"
| "truthy (Some JNull) = False"
| "truthy (Some (JBool b)) = b"
| "truthy (Some (JNum n)) = (n \<noteq> 0)"
| "truthy (Some (JStr s)) = (s \<noteq> [])"
| "truthy (Some (JArr vs)) = True"
| "truthy (Some (JObj members)) = True"

fun typeof_object :: "json \<Rightarrow> bool" where
  "typeof_object JNull = True"
| "typeof_object (JArr vs) = True"
| "typeof_object (JObj members) = True"
| "typeof_object v = False"

text \<open>
  \<open>v || null\<close>.
\<close>

fun js_or_null :: "json option \<Rightarrow> json" where
  "js_or_null None = JNull"
| "js_or_null (Some v) = (if truthy (Some v) then v else JNull)"

text \<open>
  The handler passes to \<open>analyzeText\<close> whatever truthy value an item has under
  \<open>title\<close> or \<open>description\<close>. For a string this is the analysis above. What the
  function does with a number, \<open>true\<close>, an array or an object is decided by the
  coercions of JavaScript and by the way the canvas binding converts its argument: it
  returns some object, or an exception is thrown. That behaviour is the parameter
  \<open>other\<close>, of type \<open>coercion\<close>; the object returned is left abstract.
\<close>

datatype js_error = TypeError

type_synonym 'r coercion = "json \<Rightarrow> meta_type \<Rightarrow> js_error + 'r"

datatype 'r text_analysis = OfString analysis | OfValue 'r

definition analyzeValue ::
  "canvas \<Rightarrow> 'r coercion \<Rightarrow> (meta_type \<Rightarrow> settings) \<Rightarrow> json \<Rightarrow> meta_type
     \<Rightarrow> js_error + 'r text_analysis" where
  "analyzeValue cv other META v type =
     (case v of
        JStr text \<Rightarrow> Inr (OfString (analyzeText cv META text type))
      | _ \<Rightarrow> (case other v type of Inl e \<Rightarrow> Inl e | Inr r \<Rightarrow> Inr (OfValue r)))"

text \<open>
  \<open>if (item.title) result.title = analyzeText(item.title, 'title')\<close>, and the same for the
  description: \<open>Inr None\<close> when the key is not set, \<open>Inl\<close> when the analysis throws.
\<close>

definition analyzeIfTruthy ::
  "canvas \<Rightarrow> 'r coercion \<Rightarrow> (meta_type \<Rightarrow> settings) \<Rightarrow> json option \<Rightarrow> meta_type
     \<Rightarrow> js_error + 'r text_analysis option" where
  "analyzeIfTruthy cv other META v type =
     (case v of
        None \<Rightarrow> Inr None
      | Some x \<Rightarrow>
          if truthy (Some x)
          then (case analyzeValue cv other META x type of
                  Inl e \<Rightarrow> Inl e
                | Inr a \<Rightarrow> Inr (Some a))
          else Inr None)"

text \<open>
  An item whose title and description are strings where they are truthy.
\<close>

definition string_or_falsy :: "json option \<Rightarrow> bool" where
  "string_or_falsy v = (case v of Some (JStr s) \<Rightarrow> True | _ \<Rightarrow> \<not> truthy v)"

definition string_texts :: "json \<Rightarrow> bool" where
  "string_texts item =
     (string_or_falsy (property item ''title'') \<and> string_or_falsy (property item ''description''))"

text \<open>
  One entry of the result sequence. A field is \<open>None\<close> when the key is not in the
  entry; \<open>res_id = Some JNull\<close> is the entry \<open>id: null\<close>.
\<close>

record 'r item_result =
  res_id :: "json option"
  res_title :: "'r text_analysis option"
  res_description :: "'r text_analysis option"
  res_error :: "string option"

text \<open>
  The function mapped over the items; \<open>Inl\<close> when it throws.
\<close>

definition process_item ::
  "canvas \<Rightarrow> 'r coercion \<Rightarrow> (meta_type \<Rightarrow> settings) \<Rightarrow> json \<Rightarrow> js_error + 'r item_result" where
  "process_item cv other META item =
     (if \<not> truthy (Some item) \<or> \<not> typeof_object item
      then Inr \<lparr>res_id = None, res_title = None, res_description = None,
                res_error = Some ''Invalid item format''\<rparr>
      else
        (case analyzeIfTruthy cv other META (property item ''title'') Title of
           Inl e \<Rightarrow> Inl e
         | Inr title \<Rightarrow>
             (case analyzeIfTruthy cv other META (property item ''description'') Description of
                Inl e \<Rightarrow> Inl e
              | Inr description \<Rightarrow>
                  Inr \<lparr>res_id = Some (js_or_null (property item ''id'')),
                       res_title = title,
                       res_description = description,
                       res_error =
                         (if \<not> truthy (property item ''title'')
                             \<and> \<not> truthy (property item ''description'')
                          then Some ''Item must contain either a title or description''
                          else None)\<rparr>)))"

text \<open>
  \<open>items.map(f)\<close> with a function that may throw: the first exception ends the map.
\<close>

fun map_items :: "('a \<Rightarrow> 'e + 'b) \<Rightarrow> 'a list \<Rightarrow> 'e + 'b list" where
  "map_items f [] = Inr []"
| "map_items f (x # xs) =
     (case f x of
        Inl e \<Rightarrow> Inl e
      | Inr y \<Rightarrow> (case map_items f xs of Inl e \<Rightarrow> Inl e | Inr ys \<Rightarrow> Inr (y # ys)))"

text \<open>
  The handler from the point where \<open>items\<close> has been found in the request body and
  is an array: the guard on the empty array, the map over the items, the response, and
  the \<open>catch\<close> around them, which answers with status 500. The \<open>timestamp\<close> of the
  response and the \<open>message\<close> and \<open>receivedBody\<close> of the error are left out.
\<close>

datatype 'r response =
    Status200 "'r item_result list" nat
  | Status400 string
  | Status500 string

definition analyze_batch ::
  "canvas \<Rightarrow> 'r coercion \<Rightarrow> (meta_type \<Rightarrow> settings) \<Rightarrow> json list \<Rightarrow> 'r response" where
  "analyze_batch cv other META items =
     (if length items = 0
      then Status400 ''No items to analyze found in request''
      else (case map_items (process_item cv other META) items of
              Inl e \<Rightarrow> Status500 ''Batch processing failed''
            | Inr results \<Rightarrow> Status200 results (length results)))"

text \<open>
  A coercion for examples. It follows JavaScript where \<open>pixelWidth / text.length\<close>
  throws: \<open>text.length\<close> is an object with a member \<open>toString\<close>, which is not a
  function, so the object cannot be converted to a number. For every other value it
  returns a placeholder.
\<close>

definition example_coercion :: "unit coercion" where
  "example_coercion v type =
     (case property v ''length'' of
        Some (JObj members) \<Rightarrow>
          if map_of members ''toString'' \<noteq> None then Inl TypeError else Inr ()
      | _ \<Rightarrow> Inr ())"

text \<open>
  A batch of two items, the second without title and description; and a batch whose
  second item has a title that makes the analysis throw.
\<close>

definition example_items :: "json list" where
  "example_items =
     [JObj [(''id'', JStr ''1''), (''title'', JStr ''First Title'')],
      JObj [(''id'', JStr ''2'')]]"

definition throwing_items :: "json list" where
  "throwing_items =
     [JObj [(''id'', JStr ''1''), (''title'', JStr ''First Title'')],
      JObj [(''id'', JStr ''2''),
            (''title'', JObj [(''length'', JObj [(''toString'', JNum 0), (''valueOf'', JNum 0)])])]]"

section \<open>Properties\<close>

subsection \<open>The truncation scan\<close>

lemmas measure_defs = measureTextWidth_def measureText_def createContext_def

lemmas example_defs = analyzeText_def Let_def META_SETTINGS_def em_canvas_def measure_defs

lemma scan_ge: "i \<le> truncation_scan cv ctx s budget i"
proof (induction cv ctx s budget i rule: truncation_scan.induct)
  case (1 cv ctx s budget i)
  show ?case
    using "1.IH" by (subst truncation_scan.simps) auto
qed

lemma scan_le: "i \<le> length s \<Longrightarrow> truncation_scan cv ctx s budget i \<le> length s"
proof (induction cv ctx s budget i rule: truncation_scan.induct)
  case (1 cv ctx s budget i)
  show ?case
    using "1.IH" "1.prems" by (subst truncation_scan.simps) auto
qed

lemma scan_within:
  "i \<le> j \<Longrightarrow> j < truncation_scan cv ctx s budget i \<Longrightarrow>
   measureText cv ctx (take (Suc j) s) \<le> budget"
proof (induction cv ctx s budget i rule: truncation_scan.induct)
  case (1 cv ctx s budget i)
  show ?case
  proof (cases "i < length s \<and> \<not> budget < measureText cv ctx (take (i + 1) s)")
    case True
    then have step: "truncation_scan cv ctx s budget i = truncation_scan cv ctx s budget (i + 1)"
      by (subst truncation_scan.simps) simp
    show ?thesis
    proof (cases "j = i")
      case True
      with \<open>i < length s \<and> \<not> budget < measureText cv ctx (take (i + 1) s)\<close>
      show ?thesis by simp
    next
      case False
      with "1.prems"(1) have "i + 1 \<le> j" by simp
      with "1.IH" True "1.prems"(2) step show ?thesis by simp
    qed
  next
    case False
    then have "truncation_scan cv ctx s budget i = i"
      by (subst truncation_scan.simps) auto
    with "1.prems" show ?thesis by simp
  qed
qed

lemma scan_stop:
  "truncation_scan cv ctx s budget i < length s \<Longrightarrow>
   budget < measureText cv ctx (take (Suc (truncation_scan cv ctx s budget i)) s)"
proof (induction cv ctx s budget i rule: truncation_scan.induct)
  case (1 cv ctx s budget i)
  show ?case
  proof (cases "i < length s \<and> \<not> budget < measureText cv ctx (take (i + 1) s)")
    case True
    then have step: "truncation_scan cv ctx s budget i = truncation_scan cv ctx s budget (i + 1)"
      by (subst truncation_scan.simps) simp
    with "1.IH" True "1.prems" show ?thesis by simp
  next
    case False
    then have here: "truncation_scan cv ctx s budget i = i"
      by (subst truncation_scan.simps) auto
    with False "1.prems" show ?thesis by auto
  qed
qed

lemma scan_strict:
  assumes "s \<noteq> []" and "budget < measureText cv ctx s"
  shows "truncation_scan cv ctx s budget 0 < length s"
proof (rule ccontr)
  assume "\<not> truncation_scan cv ctx s budget 0 < length s"
  with scan_le [of 0 s cv ctx budget]
  have eq: "truncation_scan cv ctx s budget 0 = length s" by simp
  from assms(1) have "length s - 1 < truncation_scan cv ctx s budget 0"
    by (simp add: eq)
  from scan_within [OF _ this] have "measureText cv ctx (take (Suc (length s - 1)) s) \<le> budget"
    by simp
  with assms show False by simp
qed

lemma scan_Nil: "truncation_scan cv ctx [] budget 0 = 0"
  by (subst truncation_scan.simps) simp

lemma scan_same_widths:
  "(\<forall>n\<le>length s. measureText cv ctx (take n s) = measureText cv' ctx (take n s)) \<Longrightarrow>
   truncation_scan cv ctx s budget i = truncation_scan cv' ctx s budget i"
proof (induction cv ctx s budget i rule: truncation_scan.induct)
  case (1 cv ctx s budget i)
  show ?case
  proof (cases "i < length s")
    case True
    then have same: "measureText cv ctx (take (i + 1) s) = measureText cv' ctx (take (i + 1) s)"
      using "1.prems" by simp
    show ?thesis
    proof (cases "budget < measureText cv ctx (take (i + 1) s)")
      case True
      with \<open>i < length s\<close> same show ?thesis
        by (simp add: truncation_scan.simps [of cv ctx s budget i]
            truncation_scan.simps [of cv' ctx s budget i])
    next
      case False
      with \<open>i < length s\<close> same "1.IH" "1.prems" show ?thesis
        by (simp add: truncation_scan.simps [of cv ctx s budget i]
            truncation_scan.simps [of cv' ctx s budget i])
    qed
  next
    case False
    then show ?thesis
      by (simp add: truncation_scan.simps [of cv ctx s budget i]
          truncation_scan.simps [of cv' ctx s budget i])
  qed
qed

subsection \<open>Rounding to binary64\<close>

lemma round_half_even_bounds:
  "x - 1 / 2 \<le> of_int (round_half_even x) \<and> of_int (round_half_even x) \<le> x + 1 / 2"
proof -
  define f where "f = \<lfloor>x\<rfloor>"
  have lo: "of_int f \<le> x" and hi: "x < of_int f + 1"
    unfolding f_def by linarith+
  consider "x - of_int f < 1 / 2" | "1 / 2 < x - of_int f" | "x - of_int f = 1 / 2"
    by linarith
  then show ?thesis
  proof cases
    case 1
    then have "round_half_even x = f"
      by (simp add: round_half_even_def Let_def f_def)
    with 1 lo show ?thesis by simp
  next
    case 2
    then have "round_half_even x = f + 1"
      by (simp add: round_half_even_def Let_def f_def)
    with 2 hi show ?thesis by simp
  next
    case 3
    then have "round_half_even x = f \<or> round_half_even x = f + 1"
      by (simp add: round_half_even_def Let_def f_def)
    with 3 show ?thesis by auto
  qed
qed

lemma round_half_even_nonneg: "0 \<le> x \<Longrightarrow> 0 \<le> round_half_even x"
  by (auto simp: round_half_even_def Let_def)

lemma binary_exponent_le:
  assumes "0 < x"
  shows "2 powi binary_exponent x \<le> x"
proof (cases "1 \<le> x")
  case True
  then have pos: "0 < \<lfloor>x\<rfloor>" by simp
  from bitlen_bounds [OF pos] have "2 ^ nat (bitlen \<lfloor>x\<rfloor> - 1) \<le> \<lfloor>x\<rfloor>" by simp
  then have "(of_int (2 ^ nat (bitlen \<lfloor>x\<rfloor> - 1)) :: rat) \<le> of_int \<lfloor>x\<rfloor>"
    by (simp only: of_int_le_iff)
  also have "\<dots> \<le> x" by simp
  finally have le: "(2 :: rat) ^ nat (bitlen \<lfloor>x\<rfloor> - 1) \<le> x" by simp
  from pos have "1 \<le> bitlen \<lfloor>x\<rfloor>"
    by (simp add: bitlen_alt_def)
  then have "(2 :: rat) powi (bitlen \<lfloor>x\<rfloor> - 1) = 2 ^ nat (bitlen \<lfloor>x\<rfloor> - 1)"
    by (simp add: power_int_def)
  with le True show ?thesis
    by (simp add: binary_exponent_def)
next
  case False
  define c where "c = \<lceil>1 / x\<rceil> - 1"
  from False assms have "1 < 1 / x" by simp
  then have "1 < \<lceil>1 / x\<rceil>" by (simp add: less_ceiling_iff)
  then have pos: "0 < c" by (simp add: c_def)
  from bitlen_bounds [OF pos] have "c < 2 ^ nat (bitlen c)" by simp
  then have "\<lceil>1 / x\<rceil> \<le> 2 ^ nat (bitlen c)" by (simp add: c_def)
  then have "1 / x \<le> of_int (2 ^ nat (bitlen c))"
    by (simp only: ceiling_le_iff)
  then have "1 / x \<le> 2 ^ nat (bitlen c)" by simp
  with assms have "1 / 2 ^ nat (bitlen c) \<le> x"
    by (simp add: field_simps)
  moreover have "(2 :: rat) powi (- bitlen c) = 1 / 2 ^ nat (bitlen c)"
    using bitlen_nonneg [of c] by (simp add: power_int_def field_simps)
  ultimately show ?thesis
    using False by (simp add: binary_exponent_def c_def)
qed

lemma significand_nonneg: "0 \<le> significand x"
  unfolding significand_def by (intro round_half_even_nonneg) simp

lemma binary64_pos_cases:
  assumes "0 < x"
  shows "binary64 x = PosInf \<or> (\<exists>r. 0 \<le> r \<and> binary64 x = Num r)"
proof -
  have "(0 :: rat) \<le> of_int (significand x) * 2 powi ulp_exponent x"
    using significand_nonneg [of x] by simp
  with assms show ?thesis
    by (simp add: binary64_def)
qed

lemma binary64_finite:
  assumes "0 \<le> x" and "x < 2 powi 1023"
  shows "\<exists>r. 0 \<le> r \<and> binary64 x = Num r"
proof (cases "x = 0")
  case True
  then show ?thesis by (simp add: binary64_def)
next
  case False
  with assms have pos: "0 < x" by simp
  have "binary_exponent x < 1023"
  proof (rule ccontr)
    assume "\<not> binary_exponent x < 1023"
    then have "(2 :: rat) powi 1023 \<le> 2 powi binary_exponent x"
      by (intro power_int_increasing) simp_all
    with binary_exponent_le [OF pos] assms(2) show False by linarith
  qed
  with pos have small: "ulp_exponent x \<le> 970"
    by (simp add: ulp_exponent_def)
  have "(0 :: rat) \<le> of_int (significand x) * 2 powi ulp_exponent x"
    using significand_nonneg [of x] by simp
  with small pos show ?thesis
    by (simp add: binary64_def)
qed

lemma binary64_lower:
  assumes "2 powi (- 1022) \<le> x"
  shows "binary64 x = PosInf \<or> (\<exists>r. x / 2 \<le> r \<and> binary64 x = Num r)"
proof -
  have "(0 :: rat) < 2 powi (- 1022)" by simp
  with assms have pos: "0 < x" by linarith
  define e where "e = max (binary_exponent x) (- 1022)"
  define ulp :: rat where "ulp = 2 powi ulp_exponent x"
  have ulp_pos: "0 < ulp" by (simp add: ulp_def)
  have e: "ulp_exponent x = e - 52"
    using pos by (simp add: ulp_exponent_def e_def)
  have split: "ulp = 2 powi e / 2 ^ 52"
    by (simp add: ulp_def e power_int_diff)
  have "2 powi e \<le> x"
  proof (cases "binary_exponent x \<le> - 1022")
    case True
    then have "e = - 1022" by (simp add: e_def)
    with assms show ?thesis by simp
  next
    case False
    then have "e = binary_exponent x" by (simp add: e_def)
    with binary_exponent_le [OF pos] show ?thesis by simp
  qed
  then have ulp_le: "ulp \<le> x / 2 ^ 52"
    by (simp add: split divide_right_mono)
  from round_half_even_bounds [of "x / ulp"] pos
  have "x / ulp - 1 / 2 \<le> of_int (significand x)"
    by (simp add: significand_def ulp_def)
  with ulp_pos have "x - ulp / 2 \<le> of_int (significand x) * ulp"
    by (simp add: field_simps)
  moreover from ulp_le pos have "ulp / 2 \<le> x / 2"
    by (simp add: field_simps)
  ultimately have "x / 2 \<le> of_int (significand x) * ulp" by linarith
  with pos show ?thesis
    by (simp add: binary64_def ulp_def)
qed

lemma recommended_cases:
  assumes "0 < w" and "0 < n" and "0 < m"
  shows "js_floor (js_div (Num m) (js_div (Num w) (Num n))) = PosInf
       \<or> (\<exists>k. 0 \<le> k \<and> js_floor (js_div (Num m) (js_div (Num w) (Num n))) = Num (of_int k))"
proof -
  from assms have q: "0 < w / n" by simp
  from binary64_pos_cases [OF q] show ?thesis
  proof (elim disjE exE conjE)
    assume "binary64 (w / n) = PosInf"
    with assms have "js_floor (js_div (Num m) (js_div (Num w) (Num n))) = Num (of_int 0)"
      by simp
    then show ?thesis by blast
  next
    fix a assume a: "0 \<le> a" "binary64 (w / n) = Num a"
    show ?thesis
    proof (cases "a = 0")
      case True
      with a assms show ?thesis by simp
    next
      case False
      with a assms have "0 < m / a" by simp
      from binary64_pos_cases [OF this] a assms False show ?thesis
        by (auto intro: exI [of _ "\<lfloor>_\<rfloor>"])
    qed
  qed
qed

lemma recommended_finite:
  assumes "0 < n" and "0 < m"
    and "2 powi (- 1022) \<le> w / n" and "m / (w / n) \<le> 2 powi 1021"
  shows "\<exists>k. 0 \<le> k \<and> js_floor (js_div (Num m) (js_div (Num w) (Num n))) = Num (of_int k)"
proof -
  have "(0 :: rat) < 2 powi (- 1022)" by simp
  with assms have q: "0 < w / n" by linarith
  with assms have n: "n \<noteq> 0" by simp
  from binary64_lower [OF assms(3)] show ?thesis
  proof (elim disjE exE conjE)
    assume "binary64 (w / n) = PosInf"
    with n have "js_floor (js_div (Num m) (js_div (Num w) (Num n))) = Num (of_int 0)"
      by simp
    then show ?thesis by blast
  next
    fix a assume a: "w / n / 2 \<le> a" "binary64 (w / n) = Num a"
    from q have "0 < w / n / 2" by simp
    with a(1) have apos: "0 < a" by linarith
    with assms have nonneg: "0 \<le> m / a" by simp
    from a(1) \<open>0 < w / n / 2\<close> apos assms(2) have "m / a \<le> m / (w / n / 2)"
      by (intro divide_left_mono mult_pos_pos) simp_all
    also have "\<dots> = 2 * (m / (w / n))" by simp
    also have "\<dots> \<le> 2 * 2 powi 1021" using assms(4) by simp
    also have "\<dots> < 2 powi 1023" by simp
    finally have "m / a < 2 powi 1023" .
    from binary64_finite [OF nonneg this] obtain r where "0 \<le> r" "binary64 (m / a) = Num r"
      by blast
    with a(2) apos n have "js_floor (js_div (Num m) (js_div (Num w) (Num n))) = Num (of_int \<lfloor>r\<rfloor>)"
      by simp
    moreover from \<open>0 \<le> r\<close> have "0 \<le> \<lfloor>r\<rfloor>" by simp
    ultimately show ?thesis by blast
  qed
qed

subsection \<open>The analysis of one text\<close>

text \<open>
  Claim C1, as the code has it. \<open>isTruncated\<close> compares the measured width itself with
  \<open>maxPixels\<close>; the \<open>pixelWidth\<close> of the result is that width rounded. When
  \<open>maxPixels\<close> is a whole number, a \<open>pixelWidth\<close> above it implies truncation.
\<close>

theorem truncated_iff_measured_width_exceeds:
  "isTruncated (analyzeText cv META s type) =
     (maxPixels (META type) < measureTextWidth cv s (fontSize (META type)) (fontFamily (META type)))
   \<and> pixelWidth (analyzeText cv META s type) =
     round (measureTextWidth cv s (fontSize (META type)) (fontFamily (META type)))
   \<and> (maxPixels (META type) \<in> \<int> \<longrightarrow>
        maxPixels (META type) < of_int (pixelWidth (analyzeText cv META s type)) \<longrightarrow>
        isTruncated (analyzeText cv META s type))"
proof -
  let ?w = "measureTextWidth cv s (fontSize (META type)) (fontFamily (META type))"
  have a: "isTruncated (analyzeText cv META s type) = (maxPixels (META type) < ?w)"
    by (simp add: analyzeText_def Let_def)
  have b: "pixelWidth (analyzeText cv META s type) = round ?w"
    by (simp add: analyzeText_def Let_def)
  have c: "maxPixels (META type) < ?w"
    if int: "maxPixels (META type) \<in> \<int>" and gt: "maxPixels (META type) < of_int (round ?w)"
  proof -
    from int obtain m :: int where m: "maxPixels (META type) = of_int m"
      by (auto elim: Ints_cases)
    from gt m have "m + 1 \<le> round ?w" by simp
    then have "of_int (m + 1) \<le> ?w + 1 / 2"
      unfolding round_def by (simp add: le_floor_iff)
    then show ?thesis using m by simp
  qed
  from a b c show ?thesis by simp
qed

theorem truncated_iff_measured_width_exceeds_witness:
  "isTruncated (analyzeText (em_canvas 5) META_SETTINGS ''abcdefg'' Title)"
proof -
  have m: "maxPixels (META_SETTINGS Title) \<in> \<int>"
    by (simp add: META_SETTINGS_def)
  have g: "maxPixels (META_SETTINGS Title)
        < of_int (pixelWidth (analyzeText (em_canvas 5) META_SETTINGS ''abcdefg'' Title))"
    by (simp add: analyzeText_def Let_def META_SETTINGS_def em_canvas_def measure_defs)
  from truncated_iff_measured_width_exceeds [of "em_canvas 5" META_SETTINGS "''abcdefg''" Title] m g
  show ?thesis by blast
qed

text \<open>
  Sixty characters of 10.005 pixels measure 600.3 pixels: the title is truncated, and its
  \<open>pixelWidth\<close> is 600, which does not exceed \<open>maxPixels\<close>.
\<close>

theorem truncated_iff_pixelWidth_counterexample:
  "isTruncated (analyzeText (em_canvas (2001/4000)) META_SETTINGS (replicate 60 CHR ''a'') Title)
   \<and> \<not> maxPixels (META_SETTINGS Title)
        < of_int (pixelWidth (analyzeText (em_canvas (2001/4000)) META_SETTINGS (replicate 60 CHR ''a'') Title))"
  by (simp add: analyzeText_def Let_def META_SETTINGS_def em_canvas_def measure_defs round_def)

text \<open>
  Claim C2, as the code has it. A truncated text is cut to the prefix of length \<open>i\<close>
  followed by three full stops, where \<open>i\<close> is found by measuring the prefixes of length
  1, 2, ... in turn: every prefix up to length \<open>i\<close> fits the budget \<open>maxPixels - 5\<close>,
  and the prefix of length \<open>i + 1\<close> is the first wider than it, so the prefix kept is a
  proper one. The prefix kept fits the budget when \<open>i > 0\<close>; for \<open>i = 0\<close> it is the
  empty text, which the loop does not measure, and it fits when the empty text measures
  0 and \<open>maxPixels\<close> is at least 5.
\<close>

theorem truncated_text_prefix_and_ellipsis:
  assumes "isTruncated (analyzeText cv META s type)"
  shows "\<exists>i. truncatedText (analyzeText cv META s type) = take i s @ ''...''
           \<and> i \<le> length s
           \<and> (\<forall>j<i. prefix_width cv (META type) s (Suc j) \<le> maxPixels (META type) - 5)
           \<and> (s \<noteq> [] \<longrightarrow> i < length s
                 \<and> maxPixels (META type) - 5 < prefix_width cv (META type) s (Suc i))
           \<and> (0 < i \<longrightarrow> prefix_width cv (META type) s i \<le> maxPixels (META type) - 5)
           \<and> (measureTextWidth cv [] (fontSize (META type)) (fontFamily (META type)) = 0
                 \<and> 5 \<le> maxPixels (META type)
                 \<longrightarrow> prefix_width cv (META type) s i \<le> maxPixels (META type) - 5)"
proof -
  let ?ctx = "createContext (fontSize (META type)) (fontFamily (META type))"
  let ?b = "maxPixels (META type) - 5"
  let ?i = "truncation_scan cv ?ctx s ?b 0"
  from assms have wide: "maxPixels (META type) < measureText cv ?ctx s"
    by (simp add: analyzeText_def Let_def measureTextWidth_def)
  then have over: "?b < measureText cv ?ctx s" by simp
  have t: "truncatedText (analyzeText cv META s type) = take ?i s @ ''...''"
    using wide by (simp add: analyzeText_def Let_def measureTextWidth_def)
  have le: "?i \<le> length s"
    by (rule scan_le) simp
  have below: "\<forall>j<?i. prefix_width cv (META type) s (Suc j) \<le> ?b"
    unfolding prefix_width_def using scan_within [of 0 _ cv ?ctx s ?b] by simp
  have stop: "?i < length s \<and> ?b < prefix_width cv (META type) s (Suc ?i)" if "s \<noteq> []"
    unfolding prefix_width_def
    using scan_strict [OF that over] scan_stop [of cv ?ctx s ?b 0] by simp
  have kept: "prefix_width cv (META type) s ?i \<le> ?b" if "0 < ?i"
  proof (cases "?i")
    case 0
    with that show ?thesis by simp
  next
    case (Suc k)
    with below have "prefix_width cv (META type) s (Suc k) \<le> ?b" by simp
    with Suc show ?thesis by simp
  qed
  have kept0: "prefix_width cv (META type) s ?i \<le> ?b"
    if "measureTextWidth cv [] (fontSize (META type)) (fontFamily (META type)) = 0
        \<and> 5 \<le> maxPixels (META type)"
  proof (cases "0 < ?i")
    case True
    then show ?thesis by (rule kept)
  next
    case False
    then have "prefix_width cv (META type) s ?i
        = measureTextWidth cv [] (fontSize (META type)) (fontFamily (META type))"
      by (simp add: prefix_width_def measureTextWidth_def)
    with that show ?thesis by simp
  qed
  show ?thesis
  proof (intro exI conjI impI)
    show "truncatedText (analyzeText cv META s type) = take ?i s @ ''...''" by (rule t)
    show "?i \<le> length s" by (rule le)
    show "\<forall>j<?i. prefix_width cv (META type) s (Suc j) \<le> ?b" by (rule below)
    show "?i < length s" if "s \<noteq> []" using stop [OF that] by simp
    show "?b < prefix_width cv (META type) s (Suc ?i)" if "s \<noteq> []"
      using stop [OF that] by simp
    show "prefix_width cv (META type) s ?i \<le> ?b" if "0 < ?i" using that by (rule kept)
    show "prefix_width cv (META type) s ?i \<le> ?b"
      if "measureTextWidth cv [] (fontSize (META type)) (fontFamily (META type)) = 0
          \<and> 5 \<le> maxPixels (META type)"
      using that by (rule kept0)
  qed
qed

theorem truncated_text_prefix_and_ellipsis_witness:
  "isTruncated (analyzeText (em_canvas 5) META_SETTINGS ''abcdefg'' Title)
   \<and> truncatedText (analyzeText (em_canvas 5) META_SETTINGS ''abcdefg'' Title) = ''abcde...''
   \<and> prefix_width (em_canvas 5) (META_SETTINGS Title) ''abcdefg'' 5
        \<le> maxPixels (META_SETTINGS Title) - 5"
proof -
  let ?A = "analyzeText (em_canvas 5) META_SETTINGS ''abcdefg'' Title"
  have pw: "prefix_width (em_canvas 5) (META_SETTINGS Title) ''abcdefg'' n = 100 * of_nat (min n 7)" for n
    by (simp add: prefix_width_def measureText_def createContext_def em_canvas_def META_SETTINGS_def min.commute)
  have mx: "maxPixels (META_SETTINGS Title) = 600"
    by (simp add: META_SETTINGS_def)
  have h: "isTruncated ?A"
    by (simp add: analyzeText_def Let_def META_SETTINGS_def em_canvas_def measure_defs)
  from truncated_text_prefix_and_ellipsis [OF h] obtain i where
    t: "truncatedText ?A = take i ''abcdefg'' @ ''...''"
    and below: "\<forall>j<i. prefix_width (em_canvas 5) (META_SETTINGS Title) ''abcdefg'' (Suc j)
                  \<le> maxPixels (META_SETTINGS Title) - 5"
    and stop: "i < length ''abcdefg'' \<and> maxPixels (META_SETTINGS Title) - 5
                 < prefix_width (em_canvas 5) (META_SETTINGS Title) ''abcdefg'' (Suc i)"
    and kept: "0 < i \<longrightarrow> prefix_width (em_canvas 5) (META_SETTINGS Title) ''abcdefg'' i
                 \<le> maxPixels (META_SETTINGS Title) - 5"
    by auto
  from stop have i7: "i < 7" by simp
  then have "min (Suc i) 7 = Suc i" by simp
  with stop have "(595::rat) < 100 * of_nat (Suc i)"
    unfolding pw mx by simp
  then have "(of_nat 595 :: rat) < of_nat (100 * Suc i)" by simp
  then have "595 < 100 * Suc i"
    by (simp only: of_nat_less_iff)
  then have lo: "5 \<le> i" by arith
  have hi: "i \<le> 5"
  proof (rule ccontr)
    assume "\<not> i \<le> 5"
    then have "5 < i" by simp
    with below have "prefix_width (em_canvas 5) (META_SETTINGS Title) ''abcdefg'' (Suc 5)
                  \<le> maxPixels (META_SETTINGS Title) - 5" by blast
    then show False unfolding pw mx by simp
  qed
  from lo hi have "i = 5" by simp
  with t h kept show ?thesis by simp
qed

text \<open>
  The text cut at the title budget ends in three full stops and not in the character
  U+2026. With a budget of 4 pixels the first character is already too wide, the text
  is cut to the marker alone, and the empty prefix kept, which measures 0, is wider than
  the reduced budget of -1.
\<close>

theorem truncated_text_marker_and_bound_counterexample:
  "truncatedText (analyzeText (em_canvas 5) META_SETTINGS ''abcdefg'' Title) = ''abcde...''
   \<and> \<not> suffix spec_ellipsis_marker
          (truncatedText (analyzeText (em_canvas 5) META_SETTINGS ''abcdefg'' Title))
   \<and> isTruncated (analyzeText (em_canvas 5) narrow_settings ''abcdefg'' Title)
   \<and> truncatedText (analyzeText (em_canvas 5) narrow_settings ''abcdefg'' Title) = ''...''
   \<and> \<not> prefix_width (em_canvas 5) (narrow_settings Title) ''abcdefg'' 0
          \<le> maxPixels (narrow_settings Title) - 5"
proof -
  have a: "truncatedText (analyzeText (em_canvas 5) META_SETTINGS ''abcdefg'' Title) = ''abcde...''"
    by code_simp
  have b: "\<not> suffix spec_ellipsis_marker ''abcde...''"
    by code_simp
  have c: "isTruncated (analyzeText (em_canvas 5) narrow_settings ''abcdefg'' Title)"
    by code_simp
  have d: "truncatedText (analyzeText (em_canvas 5) narrow_settings ''abcdefg'' Title) = ''...''"
    by code_simp
  have e: "\<not> prefix_width (em_canvas 5) (narrow_settings Title) ''abcdefg'' 0
          \<le> maxPixels (narrow_settings Title) - 5"
    by code_simp
  from a b c d e show ?thesis by simp
qed

text \<open>
  Claim C3. When the analysis reports that the text is not truncated, the
  \<open>truncatedText\<close> of the result is the input text itself.
\<close>

theorem not_truncated_text_unchanged:
  "\<not> isTruncated (analyzeText cv META text type) \<Longrightarrow>
   truncatedText (analyzeText cv META text type) = text"
  by (simp add: analyzeText_def Let_def)

theorem not_truncated_text_unchanged_witness:
  "\<not> isTruncated (analyzeText (em_canvas (1/2)) META_SETTINGS ''Your Meta Title'' Title) \<and>
   truncatedText (analyzeText (em_canvas (1/2)) META_SETTINGS ''Your Meta Title'' Title)
     = ''Your Meta Title''"
proof -
  have h: "\<not> isTruncated (analyzeText (em_canvas (1/2)) META_SETTINGS ''Your Meta Title'' Title)"
    by (simp add: analyzeText_def Let_def META_SETTINGS_def em_canvas_def
        measureTextWidth_def measureText_def createContext_def)
  show ?thesis
    using h not_truncated_text_unchanged [OF h] by simp
qed

text \<open>
  Claim C4, as the code has it. For a description the result carries \<open>minPixels\<close> and
  \<open>isTooShort\<close>, \<open>isTooShort\<close> says that the measured width itself is below
  \<open>minPixels\<close>, and the text is optimal when it is neither truncated nor too short. For a
  title both keys are left out and the text is optimal when it is not truncated.
\<close>

theorem too_short_and_optimal_by_kind:
  "res_minPixels (analyzeText cv META s Description) = Some (minPixels (META Description))
   \<and> (\<forall>m. minPixels (META Description) = Some m \<longrightarrow>
         res_isTooShort (analyzeText cv META s Description)
           = Some (measureTextWidth cv s (fontSize (META Description)) (fontFamily (META Description)) < m))
   \<and> isOptimal (analyzeText cv META s Description)
        = (\<not> isTruncated (analyzeText cv META s Description)
           \<and> res_isTooShort (analyzeText cv META s Description) = Some False)
   \<and> res_minPixels (analyzeText cv META s Title) = None
   \<and> res_isTooShort (analyzeText cv META s Title) = None
   \<and> isOptimal (analyzeText cv META s Title) = (\<not> isTruncated (analyzeText cv META s Title))"
  by (simp add: analyzeText_def Let_def)

theorem too_short_and_optimal_by_kind_witness:
  "res_isTooShort (analyzeText (em_canvas (1/2)) META_SETTINGS ''Short text'' Description) = Some True
   \<and> \<not> isOptimal (analyzeText (em_canvas (1/2)) META_SETTINGS ''Short text'' Description)"
proof -
  have m: "minPixels (META_SETTINGS Description) = Some 430"
    by (simp add: META_SETTINGS_def)
  have w: "measureTextWidth (em_canvas (1/2)) ''Short text'' (fontSize (META_SETTINGS Description))
             (fontFamily (META_SETTINGS Description)) < 430"
    by (simp add: META_SETTINGS_def em_canvas_def measure_defs)
  from too_short_and_optimal_by_kind [of "em_canvas (1/2)" META_SETTINGS "''Short text''"] m w
  show ?thesis by simp
qed

text \<open>
  Thirty characters of 14.32 pixels measure 429.6 pixels: the description is too short,
  and its \<open>pixelWidth\<close> is 430, which is not below \<open>minPixels\<close>.
\<close>

theorem too_short_by_pixelWidth_counterexample:
  "res_isTooShort (analyzeText (em_canvas (179/175)) META_SETTINGS (replicate 30 CHR ''a'') Description)
     = Some True
   \<and> minPixels (META_SETTINGS Description) = Some 430
   \<and> \<not> pixelWidth (analyzeText (em_canvas (179/175)) META_SETTINGS (replicate 30 CHR ''a'') Description)
        < 430"
  by (simp add: example_defs round_def)

text \<open>
  Claim C5, as the code has it. For a text that is not empty and measures more than zero,
  \<open>recommendedMaxChars\<close> is the floor of \<open>maxPixels / avgCharWidth\<close>, where
  \<open>avgCharWidth\<close> is the measured width, before rounding to \<open>pixelWidth\<close>, divided by
  the length of the text, and both quotients are rounded to binary64 as JavaScript
  divides. For a positive \<open>maxPixels\<close> the result is a whole number that is not
  negative, or \<open>Infinity\<close>; it is a whole number whenever the exact average is at least
  \<open>2 powi (- 1022)\<close> and the exact quotient at most \<open>2 powi 1021\<close>.
\<close>

theorem recommended_chars_from_measured_width:
  assumes "s \<noteq> []"
    and "0 < measureTextWidth cv s (fontSize (META type)) (fontFamily (META type))"
  shows "recommendedMaxChars (analyzeText cv META s type)
           = js_floor (js_div (Num (maxPixels (META type)))
               (binary64 (measureTextWidth cv s (fontSize (META type)) (fontFamily (META type))
                          / of_nat (length s))))
         \<and> (0 < maxPixels (META type) \<longrightarrow>
              recommendedMaxChars (analyzeText cv META s type) = PosInf
              \<or> (\<exists>k\<ge>0. recommendedMaxChars (analyzeText cv META s type) = Num (of_int k)))
         \<and> (0 < maxPixels (META type)
              \<and> 2 powi (- 1022)
                   \<le> measureTextWidth cv s (fontSize (META type)) (fontFamily (META type))
                      / of_nat (length s)
              \<and> maxPixels (META type)
                   / (measureTextWidth cv s (fontSize (META type)) (fontFamily (META type))
                      / of_nat (length s)) \<le> 2 powi 1021
              \<longrightarrow> (\<exists>k\<ge>0. recommendedMaxChars (analyzeText cv META s type) = Num (of_int k)))"
proof -
  let ?w = "measureTextWidth cv s (fontSize (META type)) (fontFamily (META type))"
  let ?n = "of_nat (length s) :: rat"
  let ?m = "maxPixels (META type)"
  from assms(1) have n: "0 < ?n" by simp
  have r: "recommendedMaxChars (analyzeText cv META s type)
      = js_floor (js_div (Num ?m) (js_div (Num ?w) (Num ?n)))"
    by (simp only: analyzeText_def Let_def analysis.simps)
  from n have avg: "js_div (Num ?w) (Num ?n) = binary64 (?w / ?n)" by simp
  have a: "recommendedMaxChars (analyzeText cv META s type)
      = js_floor (js_div (Num ?m) (binary64 (?w / ?n)))"
    unfolding r avg ..
  have b: "recommendedMaxChars (analyzeText cv META s type) = PosInf
      \<or> (\<exists>k\<ge>0. recommendedMaxChars (analyzeText cv META s type) = Num (of_int k))"
    if "0 < ?m"
    unfolding r using recommended_cases [OF assms(2) n that] .
  have c: "\<exists>k\<ge>0. recommendedMaxChars (analyzeText cv META s type) = Num (of_int k)"
    if "0 < ?m \<and> 2 powi (- 1022) \<le> ?w / ?n \<and> ?m / (?w / ?n) \<le> 2 powi 1021"
    unfolding r using recommended_finite [OF n, of ?m ?w] that by blast
  from a b c show ?thesis by blast
qed

theorem recommended_chars_from_measured_width_witness:
  "recommendedMaxChars (analyzeText (em_canvas (10/17)) META_SETTINGS ''Seventeen letters'' Title)
     = Num 50"
proof -
  have n: "''Seventeen letters'' \<noteq> []" by simp
  have w: "measureTextWidth (em_canvas (10/17)) ''Seventeen letters''
             (fontSize (META_SETTINGS Title)) (fontFamily (META_SETTINGS Title)) = 200"
    by (simp add: META_SETTINGS_def em_canvas_def measure_defs)
  then have p: "0 < measureTextWidth (em_canvas (10/17)) ''Seventeen letters''
             (fontSize (META_SETTINGS Title)) (fontFamily (META_SETTINGS Title))"
    by simp
  have m: "maxPixels (META_SETTINGS Title) = 600"
    by (simp add: META_SETTINGS_def)
  have q: "js_floor (js_div (Num 600) (binary64 (200 / 17))) = Num 50"
    by code_simp
  from recommended_chars_from_measured_width
         [of "''Seventeen letters''" "em_canvas (10/17)" META_SETTINGS Title] n p
  have "recommendedMaxChars (analyzeText (em_canvas (10/17)) META_SETTINGS ''Seventeen letters'' Title)
      = js_floor (js_div (Num (maxPixels (META_SETTINGS Title)))
          (binary64 (measureTextWidth (em_canvas (10/17)) ''Seventeen letters''
             (fontSize (META_SETTINGS Title)) (fontFamily (META_SETTINGS Title))
           / of_nat (length ''Seventeen letters''))))"
    by blast
  also have "\<dots> = js_floor (js_div (Num 600) (binary64 (200 / 17)))"
    unfolding w m by simp
  finally show ?thesis
    unfolding q .
qed

text \<open>
  Fifteen characters of 10.03125 pixels measure 150.46875 pixels. The code recommends
  the floor of \<open>600 / 10.03125\<close>, 59 characters; from the rounded width 150 the quotient
  is 60, divided exactly or as JavaScript divides.
\<close>

theorem recommended_chars_from_rounded_width_counterexample:
  "recommendedMaxChars (analyzeText (em_canvas (321/640)) META_SETTINGS ''Your Meta Title'' Title)
     = Num 59
   \<and> \<lfloor>maxPixels (META_SETTINGS Title)
        / (of_int (pixelWidth (analyzeText (em_canvas (321/640)) META_SETTINGS ''Your Meta Title'' Title))
           / of_nat (characterCount (analyzeText (em_canvas (321/640)) META_SETTINGS ''Your Meta Title'' Title)))\<rfloor>
     = 60
   \<and> js_floor (js_div (Num (maxPixels (META_SETTINGS Title)))
        (js_div (Num (of_int (pixelWidth (analyzeText (em_canvas (321/640)) META_SETTINGS ''Your Meta Title'' Title))))
                (Num (of_nat (characterCount (analyzeText (em_canvas (321/640)) META_SETTINGS ''Your Meta Title'' Title))))))
     = Num 60"
proof -
  have a: "recommendedMaxChars (analyzeText (em_canvas (321/640)) META_SETTINGS ''Your Meta Title'' Title)
     = Num 59"
    by code_simp
  have p: "pixelWidth (analyzeText (em_canvas (321/640)) META_SETTINGS ''Your Meta Title'' Title) = 150"
    by code_simp
  have c: "characterCount (analyzeText (em_canvas (321/640)) META_SETTINGS ''Your Meta Title'' Title) = 15"
    by (simp add: analyzeText_def Let_def)
  have m: "maxPixels (META_SETTINGS Title) = 600"
    by (simp add: META_SETTINGS_def)
  have q: "js_floor (js_div (Num 600) (js_div (Num 150) (Num 15))) = Num 60"
    by code_simp
  from a q show ?thesis
    unfolding p c m by simp
qed

text \<open>
  Claim C6. In every result \<open>characterCount\<close> is the length of the text,
  \<open>pixelWidth\<close> is the measured width rounded to a whole number, not negative since no
  width is, and \<open>maxPixels\<close> is the one of the profile.
\<close>

theorem result_shape:
  assumes "0 \<le> measureTextWidth cv s (fontSize (META type)) (fontFamily (META type))"
  shows "characterCount (analyzeText cv META s type) = length s
       \<and> pixelWidth (analyzeText cv META s type)
           = round (measureTextWidth cv s (fontSize (META type)) (fontFamily (META type)))
       \<and> 0 \<le> pixelWidth (analyzeText cv META s type)
       \<and> res_maxPixels (analyzeText cv META s type) = maxPixels (META type)"
proof -
  from assms have "0 \<le> round (measureTextWidth cv s (fontSize (META type)) (fontFamily (META type)))"
    using round_mono [of 0] by fastforce
  then show ?thesis
    by (simp add: analyzeText_def Let_def)
qed

theorem result_shape_witness:
  "characterCount (analyzeText (em_canvas (1003/2000)) META_SETTINGS ''Your Meta Title'' Title) = 15
   \<and> pixelWidth (analyzeText (em_canvas (1003/2000)) META_SETTINGS ''Your Meta Title'' Title) = 150
   \<and> res_maxPixels (analyzeText (em_canvas (1003/2000)) META_SETTINGS ''Your Meta Title'' Title) = 600"
proof -
  have p: "0 \<le> measureTextWidth (em_canvas (1003/2000)) ''Your Meta Title''
             (fontSize (META_SETTINGS Title)) (fontFamily (META_SETTINGS Title))"
    by (simp add: META_SETTINGS_def em_canvas_def measure_defs)
  have f: "\<lfloor>3019 / 20 :: rat\<rfloor> = 150" by (simp add: floor_eq_iff)
  from result_shape [of "em_canvas (1003/2000)" "''Your Meta Title''" META_SETTINGS Title] p
  show ?thesis
    by (simp add: META_SETTINGS_def em_canvas_def measure_defs round_def f)
qed

text \<open>
  Claim C7. The result of \<open>analyzeText\<close> is a function of the text, the profile, the
  kind of field and the widths that the canvas gives, in the font of the profile, to the
  prefixes of the text: two canvases that agree on these give the same result in every
  field.
\<close>

theorem analysis_determined_by_inputs:
  assumes "\<forall>n\<le>length s. prefix_width cv (META type) s n = prefix_width cv' (META type) s n"
  shows "analyzeText cv META s type = analyzeText cv' META s type"
proof -
  let ?ctx = "createContext (fontSize (META type)) (fontFamily (META type))"
  from assms have same: "\<forall>n\<le>length s. measureText cv ?ctx (take n s) = measureText cv' ?ctx (take n s)"
    by (simp add: prefix_width_def)
  then have "measureText cv ?ctx (take (length s) s) = measureText cv' ?ctx (take (length s) s)"
    by blast
  then have whole: "measureTextWidth cv s (fontSize (META type)) (fontFamily (META type))
      = measureTextWidth cv' s (fontSize (META type)) (fontFamily (META type))"
    by (simp add: measureTextWidth_def)
  have scan: "truncation_scan cv ?ctx s (maxPixels (META type) - 5) 0
      = truncation_scan cv' ?ctx s (maxPixels (META type) - 5) 0"
    using same by (rule scan_same_widths)
  show ?thesis
    unfolding analyzeText_def Let_def whole scan ..
qed

theorem analysis_determined_by_inputs_witness:
  "analyzeText (em_canvas (1/2)) META_SETTINGS ''Your Meta Title'' Title
     = analyzeText arial_only_canvas META_SETTINGS ''Your Meta Title'' Title"
proof -
  have "\<forall>n\<le>length ''Your Meta Title''.
          prefix_width (em_canvas (1/2)) (META_SETTINGS Title) ''Your Meta Title'' n
            = prefix_width arial_only_canvas (META_SETTINGS Title) ''Your Meta Title'' n"
    by (simp add: prefix_width_def measureText_def createContext_def META_SETTINGS_def
        arial_only_canvas_def)
  then show ?thesis
    by (rule analysis_determined_by_inputs)
qed

text \<open>
  Claim C9. For the empty text \<open>analyzeText\<close> returns a record like for any other:
  \<open>characterCount\<close> is 0, the division by it gives \<open>NaN\<close> (or an infinity, were the
  empty text to measure more than 0), and \<open>recommendedMaxChars\<close> is \<open>NaN\<close> or 0
  accordingly; nothing is raised.
\<close>

theorem empty_text_analysis:
  "characterCount (analyzeText cv META [] type) = 0
   \<and> recommendedMaxChars (analyzeText cv META [] type)
       = (if measureTextWidth cv [] (fontSize (META type)) (fontFamily (META type)) = 0
          then NaN else Num 0)
   \<and> truncatedText (analyzeText cv META [] type)
       = (if isTruncated (analyzeText cv META [] type) then ''...'' else [])
   \<and> pixelWidth (analyzeText cv META [] type)
       = round (measureTextWidth cv [] (fontSize (META type)) (fontFamily (META type)))
   \<and> res_maxPixels (analyzeText cv META [] type) = maxPixels (META type)"
  by (simp add: analyzeText_def Let_def scan_Nil)

theorem empty_text_analysis_witness:
  "analyzeText (em_canvas (1/2)) META_SETTINGS [] Description
     = \<lparr>pixelWidth = 0, characterCount = 0, isTruncated = False, truncatedText = [],
        isOptimal = False, recommendedMaxChars = NaN, res_maxPixels = 920,
        res_minPixels = Some (Some 430), res_isTooShort = Some True\<rparr>"
proof -
  have rest: "isTruncated (analyzeText (em_canvas (1/2)) META_SETTINGS [] Description) = False
      \<and> isOptimal (analyzeText (em_canvas (1/2)) META_SETTINGS [] Description) = False
      \<and> res_minPixels (analyzeText (em_canvas (1/2)) META_SETTINGS [] Description) = Some (Some 430)
      \<and> res_isTooShort (analyzeText (em_canvas (1/2)) META_SETTINGS [] Description) = Some True"
    by (simp add: example_defs)
  have w: "measureTextWidth (em_canvas (1/2)) [] (fontSize (META_SETTINGS Description))
             (fontFamily (META_SETTINGS Description)) = 0"
    by (simp add: em_canvas_def measure_defs)
  have m: "maxPixels (META_SETTINGS Description) = 920"
    by (simp add: META_SETTINGS_def)
  from empty_text_analysis [of "em_canvas (1/2)" META_SETTINGS Description] rest
  show ?thesis
    unfolding w m by (cases "analyzeText (em_canvas (1/2)) META_SETTINGS [] Description") simp
qed

subsection \<open>The batch endpoint\<close>

lemma map_items_Inr:
  "(\<forall>x\<in>set xs. \<not> isl (f x)) \<Longrightarrow> map_items f xs = Inr (map (\<lambda>x. projr (f x)) xs)"
  by (induction xs) (auto split: sum.splits)

lemma map_items_throws:
  "x \<in> set xs \<Longrightarrow> isl (f x) \<Longrightarrow> isl (map_items f xs)"
  by (induction xs) (auto split: sum.splits)

lemma map_items_Inl:
  "(\<exists>x\<in>set xs. isl (f x)) \<Longrightarrow> isl (map_items f xs)"
  by (erule bexE) (rule map_items_throws)

lemma analyzeIfTruthy_string:
  "string_or_falsy v \<Longrightarrow> \<not> isl (analyzeIfTruthy cv other META v type)"
  by (auto simp: analyzeIfTruthy_def analyzeValue_def string_or_falsy_def
      split: option.splits json.splits)

lemma analyzeIfTruthy_throws:
  "isl (analyzeIfTruthy cv other META v type) \<Longrightarrow> \<not> string_or_falsy v"
  using analyzeIfTruthy_string by blast

lemma process_item_strings:
  "string_texts item \<Longrightarrow> \<not> isl (process_item cv other META item)"
  using analyzeIfTruthy_string [of "property item ''title''" cv other META Title]
    analyzeIfTruthy_string [of "property item ''description''" cv other META Description]
  by (auto simp: process_item_def string_texts_def split: sum.splits)

lemma process_item_throws:
  "isl (process_item cv other META item) \<Longrightarrow> \<not> string_texts item"
  using process_item_strings by blast

text \<open>
  Claim C8, as the code has it. For a batch that is not empty and in which no analysis
  of a title or description throws, the response is a success with one entry per item,
  in the order of the items, and \<open>count\<close> their number. Each entry is computed from its
  own item alone; an item that is not an object, or has neither title nor description,
  gets an \<open>error\<close> in its own entry, and an object with a string as title or
  description gets the analysis of it and no \<open>error\<close>. When the analysis of one item
  throws, the whole batch is answered with status 500. No analysis throws for an item
  whose title and description are strings where given.
\<close>

theorem batch_results_per_item:
  assumes "items \<noteq> []"
  shows "((\<exists>item\<in>set items. isl (process_item cv other META item)) \<longrightarrow>
            analyze_batch cv other META items = Status500 ''Batch processing failed'')
       \<and> ((\<forall>item\<in>set items. \<not> isl (process_item cv other META item)) \<longrightarrow>
            (\<exists>results. analyze_batch cv other META items = Status200 results (length items)
               \<and> length results = length items
               \<and> (\<forall>i<length items. process_item cv other META (items ! i) = Inr (results ! i))
               \<and> (\<forall>i<length items.
                      \<not> truthy (Some (items ! i)) \<or> \<not> typeof_object (items ! i)
                      \<or> (\<not> truthy (property (items ! i) ''title'')
                          \<and> \<not> truthy (property (items ! i) ''description''))
                      \<longrightarrow> res_error (results ! i) \<noteq> None)
               \<and> (\<forall>i<length items. \<forall>t.
                      truthy (Some (items ! i)) \<and> typeof_object (items ! i)
                      \<and> property (items ! i) ''title'' = Some (JStr t) \<and> t \<noteq> []
                      \<longrightarrow> res_title (results ! i) = Some (OfString (analyzeText cv META t Title))
                          \<and> res_error (results ! i) = None)
               \<and> (\<forall>i<length items. \<forall>d.
                      truthy (Some (items ! i)) \<and> typeof_object (items ! i)
                      \<and> property (items ! i) ''description'' = Some (JStr d) \<and> d \<noteq> []
                      \<longrightarrow> res_description (results ! i)
                            = Some (OfString (analyzeText cv META d Description))
                          \<and> res_error (results ! i) = None)))
       \<and> (\<forall>item\<in>set items. string_texts item \<longrightarrow> \<not> isl (process_item cv other META item))"
proof (intro conjI impI)
  assume "\<exists>item\<in>set items. isl (process_item cv other META item)"
  then have "isl (map_items (process_item cv other META) items)"
    by (rule map_items_Inl)
  with assms show "analyze_batch cv other META items = Status500 ''Batch processing failed''"
    by (auto simp: analyze_batch_def split: sum.splits)
next
  show "\<forall>item\<in>set items. string_texts item \<longrightarrow> \<not> isl (process_item cv other META item)"
    by (simp add: process_item_strings)
next
  assume returns: "\<forall>item\<in>set items. \<not> isl (process_item cv other META item)"
  let ?results = "map (\<lambda>item. projr (process_item cv other META item)) items"
  from returns have "map_items (process_item cv other META) items = Inr ?results"
    by (rule map_items_Inr)
  with assms have a: "analyze_batch cv other META items = Status200 ?results (length items)"
    by (simp add: analyze_batch_def)
  have b: "process_item cv other META (items ! i) = Inr (?results ! i)" if "i < length items" for i
    using that returns by (simp add: sum.collapse(2))
  have c: "res_error (?results ! i) \<noteq> None"
    if "i < length items"
      and "\<not> truthy (Some (items ! i)) \<or> \<not> typeof_object (items ! i)
         \<or> (\<not> truthy (property (items ! i) ''title'')
             \<and> \<not> truthy (property (items ! i) ''description''))" for i
  proof -
    from b [OF that(1)] obtain r where r: "process_item cv other META (items ! i) = Inr r"
      and same: "?results ! i = r" by simp
    from r that(2) have "res_error r \<noteq> None"
      by (auto simp: process_item_def analyzeIfTruthy_def
          split: if_splits sum.splits option.splits)
    with same show ?thesis by simp
  qed
  have d: "res_title (?results ! i) = Some (OfString (analyzeText cv META t Title))
         \<and> res_error (?results ! i) = None"
    if "i < length items" and "truthy (Some (items ! i))" and "typeof_object (items ! i)"
      and "property (items ! i) ''title'' = Some (JStr t)" and "t \<noteq> []" for i t
  proof -
    from b [OF that(1)] obtain r where r: "process_item cv other META (items ! i) = Inr r"
      and same: "?results ! i = r" by simp
    from r that(2-5) have "res_title r = Some (OfString (analyzeText cv META t Title))
         \<and> res_error r = None"
      by (auto simp: process_item_def analyzeIfTruthy_def analyzeValue_def
          split: if_splits sum.splits)
    with same show ?thesis by simp
  qed
  have e: "res_description (?results ! i) = Some (OfString (analyzeText cv META t Description))
         \<and> res_error (?results ! i) = None"
    if "i < length items" and "truthy (Some (items ! i))" and "typeof_object (items ! i)"
      and "property (items ! i) ''description'' = Some (JStr t)" and "t \<noteq> []" for i t
  proof -
    from b [OF that(1)] obtain r where r: "process_item cv other META (items ! i) = Inr r"
      and same: "?results ! i = r" by simp
    from r that(2-5) have "res_description r = Some (OfString (analyzeText cv META t Description))
         \<and> res_error r = None"
      by (auto simp: process_item_def analyzeIfTruthy_def analyzeValue_def
          split: if_splits sum.splits)
    with same show ?thesis by simp
  qed
  show "\<exists>results. analyze_batch cv other META items = Status200 results (length items)
               \<and> length results = length items
               \<and> (\<forall>i<length items. process_item cv other META (items ! i) = Inr (results ! i))
               \<and> (\<forall>i<length items.
                      \<not> truthy (Some (items ! i)) \<or> \<not> typeof_object (items ! i)
                      \<or> (\<not> truthy (property (items ! i) ''title'')
                          \<and> \<not> truthy (property (items ! i) ''description''))
                      \<longrightarrow> res_error (results ! i) \<noteq> None)
               \<and> (\<forall>i<length items. \<forall>t.
                      truthy (Some (items ! i)) \<and> typeof_object (items ! i)
                      \<and> property (items ! i) ''title'' = Some (JStr t) \<and> t \<noteq> []
                      \<longrightarrow> res_title (results ! i) = Some (OfString (analyzeText cv META t Title))
                          \<and> res_error (results ! i) = None)
               \<and> (\<forall>i<length items. \<forall>d.
                      truthy (Some (items ! i)) \<and> typeof_object (items ! i)
                      \<and> property (items ! i) ''description'' = Some (JStr d) \<and> d \<noteq> []
                      \<longrightarrow> res_description (results ! i)
                            = Some (OfString (analyzeText cv META d Description))
                          \<and> res_error (results ! i) = None)"
  proof (intro exI conjI allI impI)
    show "analyze_batch cv other META items = Status200 ?results (length items)" by (rule a)
    show "length ?results = length items" by simp
    show "process_item cv other META (items ! i) = Inr (?results ! i)" if "i < length items" for i
      using that by (rule b)
    show "res_error (?results ! i) \<noteq> None"
      if "i < length items"
        and "\<not> truthy (Some (items ! i)) \<or> \<not> typeof_object (items ! i)
           \<or> (\<not> truthy (property (items ! i) ''title'')
               \<and> \<not> truthy (property (items ! i) ''description''))" for i
      using that by (rule c)
    show "res_title (?results ! i) = Some (OfString (analyzeText cv META t Title))"
      if "i < length items"
        and "truthy (Some (items ! i)) \<and> typeof_object (items ! i)
           \<and> property (items ! i) ''title'' = Some (JStr t) \<and> t \<noteq> []" for i t
      using d [of i t] that by simp
    show "res_error (?results ! i) = None"
      if "i < length items"
        and "truthy (Some (items ! i)) \<and> typeof_object (items ! i)
           \<and> property (items ! i) ''title'' = Some (JStr t) \<and> t \<noteq> []" for i t
      using d [of i t] that by simp
    show "res_description (?results ! i) = Some (OfString (analyzeText cv META t Description))"
      if "i < length items"
        and "truthy (Some (items ! i)) \<and> typeof_object (items ! i)
           \<and> property (items ! i) ''description'' = Some (JStr t) \<and> t \<noteq> []" for i t
      using e [of i t] that by simp
    show "res_error (?results ! i) = None"
      if "i < length items"
        and "truthy (Some (items ! i)) \<and> typeof_object (items ! i)
           \<and> property (items ! i) ''description'' = Some (JStr t) \<and> t \<noteq> []" for i t
      using e [of i t] that by simp
  qed
qed

theorem batch_results_per_item_witness:
  "\<exists>results. analyze_batch (em_canvas (1/2)) example_coercion META_SETTINGS example_items
       = Status200 results 2
     \<and> res_title (results ! 0)
         = Some (OfString (analyzeText (em_canvas (1/2)) META_SETTINGS ''First Title'' Title))
     \<and> res_error (results ! 0) = None
     \<and> res_error (results ! 1) = Some ''Item must contain either a title or description''"
proof -
  have n: "example_items \<noteq> []"
    by (simp add: example_items_def)
  have l: "length example_items = 2"
    by (simp add: example_items_def)
  have s: "\<forall>item\<in>set example_items. string_texts item"
    by (simp add: example_items_def string_texts_def string_or_falsy_def)
  note inst = batch_results_per_item [OF n, of "em_canvas (1/2)" example_coercion META_SETTINGS]
  from inst s have "\<forall>item\<in>set example_items.
      \<not> isl (process_item (em_canvas (1/2)) example_coercion META_SETTINGS item)"
    by blast
  with inst obtain results where
    a: "analyze_batch (em_canvas (1/2)) example_coercion META_SETTINGS example_items
          = Status200 results (length example_items)"
    and b: "\<forall>i<length example_items.
          process_item (em_canvas (1/2)) example_coercion META_SETTINGS (example_items ! i)
            = Inr (results ! i)"
    by blast
  from b l have "Inr (results ! 0)
      = process_item (em_canvas (1/2)) example_coercion META_SETTINGS (example_items ! 0)"
    by simp
  also have "\<dots> = Inr \<lparr>res_id = Some (JStr ''1''),
        res_title = Some (OfString (analyzeText (em_canvas (1/2)) META_SETTINGS ''First Title'' Title)),
        res_description = None, res_error = None\<rparr>"
    by (simp add: example_items_def process_item_def analyzeIfTruthy_def analyzeValue_def)
  finally have r0: "res_title (results ! 0)
         = Some (OfString (analyzeText (em_canvas (1/2)) META_SETTINGS ''First Title'' Title))
       \<and> res_error (results ! 0) = None"
    by simp
  from b l have "Inr (results ! 1)
      = process_item (em_canvas (1/2)) example_coercion META_SETTINGS (example_items ! 1)"
    by simp
  also have "\<dots> = Inr \<lparr>res_id = Some (JStr ''2''), res_title = None, res_description = None,
        res_error = Some ''Item must contain either a title or description''\<rparr>"
    by (simp add: example_items_def process_item_def analyzeIfTruthy_def analyzeValue_def)
  finally have r1: "res_error (results ! 1) = Some ''Item must contain either a title or description''"
    by simp
  from a l r0 r1 show ?thesis by auto
qed

text \<open>
  The empty batch is answered with status 400. A batch whose second item has the title
  \<open>{"length": {"toString": 0, "valueOf": 0}}\<close> is answered with status 500: the entry
  of the first item, which is well formed, is lost with it.
\<close>

theorem batch_top_level_failure_counterexample:
  "analyze_batch (em_canvas (1/2)) example_coercion META_SETTINGS []
     = Status400 ''No items to analyze found in request''
   \<and> analyze_batch (em_canvas (1/2)) example_coercion META_SETTINGS throwing_items
     = Status500 ''Batch processing failed''"
proof -
  have "isl (process_item (em_canvas (1/2)) example_coercion META_SETTINGS (throwing_items ! 1))"
    by (simp add: throwing_items_def process_item_def analyzeIfTruthy_def analyzeValue_def
        example_coercion_def)
  then have "isl (map_items (process_item (em_canvas (1/2)) example_coercion META_SETTINGS)
      throwing_items)"
    by (intro map_items_Inl) (auto simp: throwing_items_def)
  then show ?thesis
    by (auto simp: analyze_batch_def throwing_items_def split: sum.splits)
qed

text \<open>
  Claim C10. For an item that passes the object test, either an entry is produced, and
  it has an \<open>id\<close>: the \<open>id\<close> of the item when that is truthy, and \<open>null\<close> when it is
  missing, 0, the empty string, \<open>false\<close> or \<open>null\<close>; or the analysis of its title or
  description throws, which only a title or description that is not a string can cause,
  and no entry is produced.
\<close>

theorem item_id_or_null:
  assumes "truthy (Some item)" and "typeof_object item"
  shows "(\<exists>r. process_item cv other META item = Inr r
            \<and> res_id r \<noteq> None
            \<and> (\<forall>v. property item ''id'' = Some v \<and> truthy (Some v) \<longrightarrow> res_id r = Some v)
            \<and> (\<not> truthy (property item ''id'') \<longrightarrow> res_id r = Some JNull))
       \<or> (isl (process_item cv other META item) \<and> \<not> string_texts item)"
proof (cases "process_item cv other META item")
  case (Inl e)
  then have "isl (process_item cv other META item)" by simp
  with process_item_throws [of cv other META item] show ?thesis by blast
next
  case (Inr r)
  with assms have id: "res_id r = Some (js_or_null (property item ''id''))"
    by (auto simp: process_item_def split: sum.splits)
  have "res_id r = Some v" if "property item ''id'' = Some v \<and> truthy (Some v)" for v
    using that id by simp
  moreover have "res_id r = Some JNull" if "\<not> truthy (property item ''id'')"
    using that id by (cases "property item ''id''") simp_all
  ultimately show ?thesis
    using Inr id by simp
qed

theorem item_id_or_null_witness:
  "(\<exists>r. process_item (em_canvas (1/2)) example_coercion META_SETTINGS
          (JObj [(''id'', JNum 0), (''title'', JStr ''First Title'')]) = Inr r
        \<and> res_id r = Some JNull)
   \<and> (\<exists>r. process_item (em_canvas (1/2)) example_coercion META_SETTINGS
          (JObj [(''id'', JStr []), (''title'', JStr ''First Title'')]) = Inr r
        \<and> res_id r = Some JNull)
   \<and> (\<exists>r. process_item (em_canvas (1/2)) example_coercion META_SETTINGS
          (JObj [(''id'', JBool False), (''title'', JStr ''First Title'')]) = Inr r
        \<and> res_id r = Some JNull)
   \<and> (\<exists>r. process_item (em_canvas (1/2)) example_coercion META_SETTINGS
          (JObj [(''title'', JStr ''First Title'')]) = Inr r
        \<and> res_id r = Some JNull)
   \<and> (\<exists>r. process_item (em_canvas (1/2)) example_coercion META_SETTINGS
          (JObj [(''id'', JStr ''n''), (''title'', JNum 123)]) = Inr r
        \<and> res_id r = Some (JStr ''n''))"
proof -
  have falsy: "\<exists>r. process_item (em_canvas (1/2)) example_coercion META_SETTINGS item = Inr r
      \<and> res_id r = Some JNull"
    if "truthy (Some item)" "typeof_object item"
      "\<not> isl (process_item (em_canvas (1/2)) example_coercion META_SETTINGS item)"
      "\<not> truthy (property item ''id'')" for item
    using item_id_or_null [OF that(1,2), of "em_canvas (1/2)" example_coercion META_SETTINGS]
      that(3,4) by blast
  have given: "\<exists>r. process_item (em_canvas (1/2)) example_coercion META_SETTINGS item = Inr r
      \<and> res_id r = Some v"
    if "truthy (Some item)" "typeof_object item"
      "\<not> isl (process_item (em_canvas (1/2)) example_coercion META_SETTINGS item)"
      "property item ''id'' = Some v" "truthy (Some v)" for item v
    using item_id_or_null [OF that(1,2), of "em_canvas (1/2)" example_coercion META_SETTINGS]
      that(3,4,5) by blast
  show ?thesis
    by (intro conjI falsy given)
      (simp_all add: process_item_def analyzeIfTruthy_def analyzeValue_def example_coercion_def)
qed

end
